theory Spec2Isabelle
  imports Complex_Main
begin

section \<open>Strings\<close>

text \<open>
  Python strings are modelled as \<^typ>\<open>string\<close>: a character is a code point below 256
  (Latin-1), and on these the helpers do what Python does. \<open>str.lower()\<close> moves the
  capital letters, 65 to 90 (\<open>A\<close> to \<open>Z\<close>), 192 to 214 and 216 to 222 (the accented capitals;
  215 is the multiplication sign), up by 32, and leaves every other code point below 256
  alone. \<open>str.isspace()\<close>, which \<open>split()\<close> and \<open>strip()\<close> go by, holds of 9 to 13, 28 to
  32, 133 (next line) and 160 (no-break space).
\<close>

definition lower_char :: "char \<Rightarrow> char" where
  "lower_char c =
     (let n = (of_char c :: nat) in
        if (65 \<le> n \<and> n \<le> 90) \<or> (192 \<le> n \<and> n \<le> 214) \<or> (216 \<le> n \<and> n \<le> 222)
        then char_of (n + 32) else c)"

definition str_lower :: "string \<Rightarrow> string" where
  "str_lower s = map lower_char s"

definition is_space :: "char \<Rightarrow> bool" where
  "is_space c =
     (let n = (of_char c :: nat) in
        (9 \<le> n \<and> n \<le> 13) \<or> (28 \<le> n \<and> n \<le> 32) \<or> n = 133 \<or> n = 160)"

text \<open>\<open>starts_with s p\<close>: \<open>s.startswith(p)\<close>.\<close>

fun starts_with :: "string \<Rightarrow> string \<Rightarrow> bool" where
  "starts_with s [] = True"
| "starts_with [] (p # ps) = False"
| "starts_with (c # cs) (p # ps) = (c = p \<and> starts_with cs ps)"

text \<open>\<open>str_in x s\<close>: the Python test \<open>x in s\<close> on two strings.\<close>

fun str_in :: "string \<Rightarrow> string \<Rightarrow> bool" where
  "str_in x [] = (x = [])"
| "str_in x (c # cs) = (starts_with (c # cs) x \<or> str_in x cs)"

text \<open>
  \<open>str_split s\<close>: \<open>s.split()\<close> with no argument, the maximal runs of characters that are
  not whitespace, in order; \<open>split_from word s\<close> carries the run read so far.
\<close>

fun split_from :: "string \<Rightarrow> string \<Rightarrow> string list" where
  "split_from word [] = (if word = [] then [] else [word])"
| "split_from word (c # cs) =
     (if is_space c then (if word = [] then split_from [] cs else word # split_from [] cs)
      else split_from (word @ [c]) cs)"

definition str_split :: "string \<Rightarrow> string list" where
  "str_split s = split_from [] s"

text \<open>\<open>str_strip s\<close>: \<open>s.strip()\<close>, whitespace removed at both ends.\<close>

definition str_strip :: "string \<Rightarrow> string" where
  "str_strip s = rev (dropWhile is_space (rev (dropWhile is_space s)))"

section \<open>The fuzzy matcher\<close>

text \<open>
  \<open>difflib.SequenceMatcher\<close> belongs to the Python library, not to this program, and its
  ratio is a double. The matcher takes it as the parameter \<open>similarity\<close>:
  \<open>similarity a b\<close> is the value the source names \<open>similarity\<close>, that is
  \<open>SequenceMatcher(None, a, b).ratio() * 100\<close>, as the rational number the double denotes.
  Python compares that double with the integer threshold exactly.

  \<open>scan_words\<close> is the loop over \<open>words\<close>. Beside the loop's result it returns the words
  that were handed to \<open>SequenceMatcher\<close> before the loop ended, in order.
\<close>

type_synonym similarity = "string \<Rightarrow> string \<Rightarrow> rat"

fun scan_words :: "similarity \<Rightarrow> string \<Rightarrow> int \<Rightarrow> string list \<Rightarrow> bool \<times> string list" where
  "scan_words similarity brand_lower threshold [] = (False, [])"
| "scan_words similarity brand_lower threshold (word # words) =
     (if 3 \<le> length word then
        (if of_int threshold \<le> similarity brand_lower word then (True, [word])
         else (case scan_words similarity brand_lower threshold words of
                 (found, compared) \<Rightarrow> (found, word # compared)))
      else scan_words similarity brand_lower threshold words)"

text \<open>
  \<open>fuzzy_match_brand\<close> reads the global \<open>fuzzy_enabled\<close>; here it is an argument.
  \<open>fuzzy_match_trace\<close> is the function with the list of compared words beside its result.
\<close>

definition fuzzy_match_trace ::
    "similarity \<Rightarrow> bool \<Rightarrow> string \<Rightarrow> string \<Rightarrow> int \<Rightarrow> bool \<times> string list" where
  "fuzzy_match_trace similarity fuzzy_enabled text brand_name threshold =
     (if \<not> fuzzy_enabled then (str_in (str_lower brand_name) (str_lower text), [])
      else
        (let text_lower = str_lower text; brand_lower = str_lower brand_name in
           if str_in brand_lower text_lower then (True, [])
           else scan_words similarity brand_lower threshold (str_split text_lower)))"

definition fuzzy_match_brand :: "similarity \<Rightarrow> bool \<Rightarrow> string \<Rightarrow> string \<Rightarrow> int \<Rightarrow> bool" where
  "fuzzy_match_brand similarity fuzzy_enabled text brand_name threshold =
     fst (fuzzy_match_trace similarity fuzzy_enabled text brand_name threshold)"

text \<open>
  A stand-in for the library's ratio, used where an example needs a concrete one: twice
  the length of the common prefix over the sum of the lengths, times 100.
\<close>

fun common_prefix :: "string \<Rightarrow> string \<Rightarrow> nat" where
  "common_prefix (a # as) (b # bs) = (if a = b then Suc (common_prefix as bs) else 0)"
| "common_prefix as bs = 0"

definition prefix_similarity :: similarity where
  "prefix_similarity a b =
     (if length a + length b = 0 then 100
      else of_nat (200 * common_prefix a b) / of_nat (length a + length b))"

section \<open>Configuration and data\<close>

text \<open>
  The exceptions the model tells apart: anything a browser call raises, the
  \<open>AttributeError\<close> of \<open>brand_name.lower()\<close> on a missing Brand cell (pandas reads it
  as the float NaN), the \<open>KeyError\<close> of \<open>row['Brand']\<close> on a table with no such column,
  and the \<open>ZeroDivisionError\<close> of the progress fraction.
\<close>

datatype error =
    WebDriverException string
  | AttributeError
  | KeyError string
  | ZeroDivisionError

text \<open>
  A URL template is kept as the parts \<open>str.format\<close> sees in it: literal text and the two
  fields \<open>{search_term}\<close> and \<open>{page}\<close>.
\<close>

datatype template_part = Literal string | Search_term | Page_number

record site_config =
  url_template :: "template_part list"
  url_encoding :: string
  product_selector :: string
  brand_in_url :: bool
  domain_check :: string
  additional_selectors :: "string list"

text \<open>
  The sidebar values the backend functions read as globals. The two delays only feed
  \<open>time.sleep\<close> and are left out.
\<close>

record settings =
  sites_config :: "string \<Rightarrow> bool option"
  fuzzy_enabled :: bool
  fuzzy_threshold :: int
  max_links_per_site :: int

definition all_configs :: "(string \<times> site_config) list" where
  \<open>all_configs =
    [(''Alibaba'',
      \<lparr>url_template = [Literal ''https://www.alibaba.com/trade/search?SearchText='', Search_term,
                       Literal ''&page='', Page_number],
       url_encoding = ''%20'',
       product_selector = ''a[href*="/product-detail/"]'',
       brand_in_url = True,
       domain_check = ''alibaba.com'',
       additional_selectors = []\<rparr>),
     (''DHgate'',
      \<lparr>url_template = [Literal ''https://www.dhgate.com/wholesale/search.do?act=search&searchkey='',
                       Search_term, Literal ''&pageNum='', Page_number],
       url_encoding = ''+'',
       product_selector = ''a[href*="/product/"]'',
       brand_in_url = False,
       domain_check = ''dhgate.com'',
       additional_selectors = []\<rparr>),
     (''Made-in-China'',
      \<lparr>url_template = [Literal ''https://www.made-in-china.com/products-search/hot-china-products/'',
                       Search_term, Literal ''.html?page='', Page_number],
       url_encoding = ''-'',
       product_selector = ''a[href*="/product/"]'',
       brand_in_url = False,
       domain_check = ''made-in-china.com'',
       additional_selectors = [''a[href*="/prod/"]'', ''.item-link a'', ''.product-item a'']\<rparr>)]\<close>

text \<open>\<open>sites_config.get(k, False)\<close> keeps a site when its checkbox is set.\<close>

definition get_site_configs :: "(string \<Rightarrow> bool option) \<Rightarrow> (string \<times> site_config) list" where
  "get_site_configs enabled_sites =
     filter (\<lambda>(k, v). case enabled_sites k of Some enabled \<Rightarrow> enabled | None \<Rightarrow> False) all_configs"

text \<open>
  The input table: the column names and the rows, each row one cell per column. A cell is
  a string, or \<open>None\<close> where pandas has NaN. Column names are distinct, as \<open>read_csv\<close>
  makes them.
\<close>

type_synonym cell = "string option"

record dataframe =
  columns :: "string list"
  rows :: "cell list list"

definition keyword_columns :: "dataframe \<Rightarrow> string list" where
  "keyword_columns df = filter (str_in ''Keyword'') (columns df)"

text \<open>\<open>[str(row[col]) for col in row.index if 'Keyword' in col and pd.notna(row[col])]\<close>\<close>

definition keywords_of :: "string list \<Rightarrow> cell list \<Rightarrow> string list" where
  "keywords_of cols row =
     [the c. (col, c) \<leftarrow> zip cols row, str_in ''Keyword'' col, c \<noteq> None]"

text \<open>How an f-string prints a cell.\<close>

definition cell_str :: "cell \<Rightarrow> string" where
  "cell_str c = (case c of Some s \<Rightarrow> s | None \<Rightarrow> ''nan'')"

text \<open>
  A row of the result table. The fifth column, \<open>Scraped At\<close>, is the wall-clock time of
  the append and is not modelled.
\<close>

record result_row =
  Brand :: cell
  Keyword :: string
  Site :: string
  Product_URL :: string

section \<open>The browser\<close>

text \<open>
  The browser is the environment. Each call of the source that can raise has its outcome
  as a value: \<open>Inl\<close> the exception, \<open>Inr\<close> the result. An element answers
  \<open>get_attribute\<close> for \<open>href\<close>, \<open>title\<close> and \<open>alt\<close> (\<open>None\<close> when the attribute is absent)
  and \<open>.text\<close>; a loaded page answers the scroll script and \<open>find_elements\<close>; the driver
  answers \<open>driver.get\<close>, given the number of the task that asks and the URL.
\<close>

record element =
  el_href :: "error + string option"
  el_text :: "error + string"
  el_title :: "error + string option"
  el_alt :: "error + string option"

record page =
  execute_script :: "error + unit"
  find_elements :: "string \<Rightarrow> error + element list"

type_synonym driver = "nat \<Rightarrow> string \<Rightarrow> error + page"

section \<open>One task\<close>

definition replace_space :: "string \<Rightarrow> string \<Rightarrow> string" where
  "replace_space new s = concat (map (\<lambda>c. if c = CHR '' '' then new else [c]) s)"

definition formatted_term :: "site_config \<Rightarrow> string \<Rightarrow> string" where
  "formatted_term config search_term =
     (if url_encoding config = ''-'' then str_lower (replace_space ''-'' search_term)
      else replace_space (url_encoding config) search_term)"

definition format_url :: "template_part list \<Rightarrow> string \<Rightarrow> string \<Rightarrow> string" where
  "format_url template term page_no =
     concat (map (\<lambda>p. case p of Literal s \<Rightarrow> s | Search_term \<Rightarrow> term | Page_number \<Rightarrow> page_no)
               template)"

definition search_url :: "site_config \<Rightarrow> string \<Rightarrow> string" where
  "search_url config search_term =
     format_url (url_template config) (formatted_term config search_term) ''1''"

text \<open>
  The link extractor, lines 251 to 255. Beside the outcome it returns the selectors it
  passed to \<open>find_elements\<close>, in the order of the calls. \<open>extend_links\<close> is the loop over
  the additional selectors.
\<close>

fun extend_links ::
    "page \<Rightarrow> string list \<Rightarrow> element list \<Rightarrow> string list \<times> (error + element list)" where
  "extend_links pg [] links = ([], Inr links)"
| "extend_links pg (selector # selectors) links =
     (case find_elements pg selector of
        Inl e \<Rightarrow> ([selector], Inl e)
      | Inr found \<Rightarrow>
          (case extend_links pg selectors (links @ found) of
             (queried, outcome) \<Rightarrow> (selector # queried, outcome)))"

definition extract_links :: "page \<Rightarrow> site_config \<Rightarrow> string list \<times> (error + element list)" where
  "extract_links pg config =
     (case find_elements pg (product_selector config) of
        Inl e \<Rightarrow> ([product_selector config], Inl e)
      | Inr links \<Rightarrow>
          if links = [] \<and> additional_selectors config \<noteq> [] then
            (case extend_links pg (additional_selectors config) links of
               (queried, outcome) \<Rightarrow> (product_selector config # queried, outcome))
          else ([product_selector config], Inr links))"

text \<open>The call \<open>fuzzy_match_brand(text, brand, fuzzy_threshold)\<close> on a Brand cell.\<close>

definition call_fuzzy_match_brand :: "similarity \<Rightarrow> settings \<Rightarrow> string \<Rightarrow> cell \<Rightarrow> error + bool" where
  "call_fuzzy_match_brand similarity cfg text brand =
     (case brand of
        None \<Rightarrow> Inl AttributeError
      | Some brand_name \<Rightarrow>
          Inr (fuzzy_match_brand similarity (fuzzy_enabled cfg) text brand_name (fuzzy_threshold cfg)))"

definition or_empty :: "string option \<Rightarrow> string" where
  "or_empty a = (case a of Some s \<Rightarrow> s | None \<Rightarrow> [])"

text \<open>The value of \<open>should_add\<close> at line 274, lines 260 to 272.\<close>

definition should_add_link ::
    "similarity \<Rightarrow> settings \<Rightarrow> site_config \<Rightarrow> cell \<Rightarrow> element \<Rightarrow> string \<Rightarrow> error + bool" where
  "should_add_link similarity cfg config brand link href =
     (if brand_in_url config then call_fuzzy_match_brand similarity cfg href brand
      else
        (case el_text link of
           Inl e \<Rightarrow> Inl e
         | Inr t \<Rightarrow>
             (case el_title link of
                Inl e \<Rightarrow> Inl e
              | Inr title \<Rightarrow>
                  (case el_alt link of
                     Inl e \<Rightarrow> Inl e
                   | Inr alt \<Rightarrow>
                       (let link_text = str_strip t;
                            title_attr = or_empty title;
                            alt_attr = or_empty alt;
                            combined_text = link_text @ '' '' @ title_attr @ '' '' @ alt_attr
                        in case call_fuzzy_match_brand similarity cfg combined_text brand of
                             Inl e \<Rightarrow> Inl e
                           | Inr should_add \<Rightarrow>
                               Inr (if \<not> fuzzy_enabled cfg then True else should_add))))))"

text \<open>
  \<open>unique_links\<close> is a Python set; the model keeps it as a list without repetitions, in
  the order of insertion. \<open>set_add\<close> is \<open>unique_links.add\<close>. Python leaves the order in
  which a set is iterated open, so the order of the rows of one task is the model's choice;
  nothing below depends on it.
\<close>

definition set_add :: "string \<Rightarrow> string list \<Rightarrow> string list" where
  "set_add x xs = (if x \<in> set xs then xs else xs @ [x])"

text \<open>\<open>if href and config['domain_check'] in href\<close>\<close>

definition href_passes :: "site_config \<Rightarrow> string option \<Rightarrow> bool" where
  "href_passes config href =
     (case href of None \<Rightarrow> False | Some h \<Rightarrow> h \<noteq> [] \<and> str_in (domain_check config) h)"

text \<open>The loop over \<open>links\<close>, lines 257 to 278; returning early is the \<open>break\<close>.\<close>

fun collect_links ::
    "similarity \<Rightarrow> settings \<Rightarrow> site_config \<Rightarrow> cell \<Rightarrow> element list \<Rightarrow> string list \<Rightarrow>
     error + string list" where
  "collect_links similarity cfg config brand [] unique_links = Inr unique_links"
| "collect_links similarity cfg config brand (link # links) unique_links =
     (case el_href link of
        Inl e \<Rightarrow> Inl e
      | Inr href \<Rightarrow>
          if href_passes config href then
            (case should_add_link similarity cfg config brand link (the href) of
               Inl e \<Rightarrow> Inl e
             | Inr should_add \<Rightarrow>
                 (let unique_links' =
                        (if should_add then set_add (the href) unique_links else unique_links)
                  in if max_links_per_site cfg \<le> int (length unique_links') then Inr unique_links'
                     else collect_links similarity cfg config brand links unique_links'))
          else collect_links similarity cfg config brand links unique_links)"

text \<open>The body of the inner \<open>try\<close>, lines 246 to 278: \<open>Inl\<close> is what \<open>except\<close> catches.\<close>

definition scrape_page ::
    "similarity \<Rightarrow> settings \<Rightarrow> driver \<Rightarrow> nat \<Rightarrow> site_config \<Rightarrow> cell \<Rightarrow> string \<Rightarrow> error + string list" where
  "scrape_page similarity cfg drv task_no config brand search_term =
     (case drv task_no (search_url config search_term) of
        Inl e \<Rightarrow> Inl e
      | Inr pg \<Rightarrow>
          (case execute_script pg of
             Inl e \<Rightarrow> Inl e
           | Inr u \<Rightarrow>
               (case snd (extract_links pg config) of
                  Inl e \<Rightarrow> Inl e
                | Inr links \<Rightarrow> collect_links similarity cfg config brand links [])))"

section \<open>The pipeline\<close>

text \<open>
  What \<open>run_scraper\<close> has built up at any moment: the result rows, the task counter, the
  fractions given to the progress bar, and the warnings shown (site name and exception).
\<close>

record run_state =
  results :: "result_row list"
  current_operation :: nat
  progress_reports :: "rat list"
  warnings :: "(string \<times> error) list"

text \<open>A \<open>for\<close> loop whose body may raise: the first exception ends the loop.\<close>

fun for_each :: "('a \<Rightarrow> 's \<Rightarrow> error + 's) \<Rightarrow> 'a list \<Rightarrow> 's \<Rightarrow> error + 's" where
  "for_each body [] s = Inr s"
| "for_each body (x # xs) s =
     (case body x s of Inl e \<Rightarrow> Inl e | Inr s' \<Rightarrow> for_each body xs s')"

definition make_row :: "cell \<Rightarrow> string \<Rightarrow> string \<Rightarrow> string \<Rightarrow> result_row" where
  "make_row brand keyword site_name link =
     \<lparr>Brand = brand, Keyword = keyword, Site = site_name, Product_URL = link\<rparr>"

text \<open>
  The body of the loop over the sites, lines 230 to 291. The division is outside the
  inner \<open>try\<close>, so a zero \<open>total_operations\<close> would end the run.
\<close>

definition run_task ::
    "similarity \<Rightarrow> settings \<Rightarrow> driver \<Rightarrow> nat \<Rightarrow> cell \<Rightarrow> string \<Rightarrow> string \<times> site_config \<Rightarrow>
     run_state \<Rightarrow> error + run_state" where
  "run_task similarity cfg drv total_operations brand keyword site st =
     (case site of (site_name, config) \<Rightarrow>
        (let task_no = current_operation st + 1 in
           if total_operations = 0 then Inl ZeroDivisionError
           else
             (let progress = of_nat task_no / of_nat total_operations;
                  st1 = st\<lparr>current_operation := task_no,
                           progress_reports := progress_reports st @ [progress]\<rparr>;
                  search_term = cell_str brand @ '' '' @ keyword
              in case scrape_page similarity cfg drv task_no config brand search_term of
                   Inl e \<Rightarrow> Inr (st1\<lparr>warnings := warnings st1 @ [(site_name, e)]\<rparr>)
                 | Inr unique_links \<Rightarrow>
                     Inr (st1\<lparr>results := results st1 @
                                 map (make_row brand keyword site_name) unique_links\<rparr>))))"

definition run_sites ::
    "similarity \<Rightarrow> settings \<Rightarrow> driver \<Rightarrow> nat \<Rightarrow> (string \<times> site_config) list \<Rightarrow> cell \<Rightarrow> string \<Rightarrow>
     run_state \<Rightarrow> error + run_state" where
  "run_sites similarity cfg drv total_operations sites brand keyword st =
     for_each (run_task similarity cfg drv total_operations brand keyword) sites st"

definition run_keywords ::
    "similarity \<Rightarrow> settings \<Rightarrow> driver \<Rightarrow> nat \<Rightarrow> (string \<times> site_config) list \<Rightarrow> cell \<Rightarrow>
     string list \<Rightarrow> run_state \<Rightarrow> error + run_state" where
  "run_keywords similarity cfg drv total_operations sites brand keywords st =
     for_each (run_sites similarity cfg drv total_operations sites brand) keywords st"

text \<open>The body of the loop over the rows: \<open>row['Brand']\<close>, the keywords, their loop.\<close>

definition run_row ::
    "similarity \<Rightarrow> settings \<Rightarrow> driver \<Rightarrow> nat \<Rightarrow> (string \<times> site_config) list \<Rightarrow> string list \<Rightarrow>
     cell list \<Rightarrow> run_state \<Rightarrow> error + run_state" where
  "run_row similarity cfg drv total_operations sites cols row st =
     (case map_of (zip cols row) ''Brand'' of
        None \<Rightarrow> Inl (KeyError ''Brand'')
      | Some brand \<Rightarrow>
          run_keywords similarity cfg drv total_operations sites brand (keywords_of cols row) st)"

text \<open>
  \<open>run_scraper\<close>. \<open>chrome\<close> is the outcome of starting the browser. The function returns
  \<open>None\<close> after a failed start and after a run with no results, and the table otherwise;
  an exception outside the inner \<open>try\<close> leaves the function (\<open>Inl\<close>). The
  \<open>driver.quit()\<close> of the \<open>finally\<close> block changes none of this and is left out.
\<close>

datatype run_outcome =
    Chrome_failed error
  | Finished "result_row list option" run_state

definition total_operations_of :: "dataframe \<Rightarrow> (string \<times> site_config) list \<Rightarrow> nat" where
  "total_operations_of df_input sites =
     length (rows df_input) * length (keyword_columns df_input) * length sites"

definition run_scraper ::
    "similarity \<Rightarrow> settings \<Rightarrow> error + driver \<Rightarrow> dataframe \<Rightarrow> error + run_outcome" where
  "run_scraper similarity cfg chrome df_input =
     (let sites = get_site_configs (sites_config cfg) in
        case chrome of
          Inl e \<Rightarrow> Inr (Chrome_failed e)
        | Inr drv \<Rightarrow>
            (let total_operations = total_operations_of df_input sites;
                 st0 = \<lparr>results = [], current_operation = 0, progress_reports = [], warnings = []\<rparr>
             in case for_each (run_row similarity cfg drv total_operations sites (columns df_input))
                       (rows df_input) st0 of
                  Inl e \<Rightarrow> Inl e
                | Inr st \<Rightarrow>
                    Inr (Finished (if results st = [] then None else Some (results st)) st)))"

section \<open>The tasks of a run\<close>

text \<open>
  The tasks the three nested loops go through, in their order: for each row its brand,
  for each keyword of the row, for each active site.
\<close>

type_synonym task = "cell \<times> string \<times> string \<times> site_config"

definition row_tasks :: "(string \<times> site_config) list \<Rightarrow> string list \<Rightarrow> cell list \<Rightarrow> task list" where
  "row_tasks sites cols row =
     concat (map (\<lambda>keyword. map (\<lambda>site. (the (map_of (zip cols row) ''Brand''), keyword, site)) sites)
               (keywords_of cols row))"

definition tasks_of :: "dataframe \<Rightarrow> (string \<times> site_config) list \<Rightarrow> task list" where
  "tasks_of df_input sites = concat (map (row_tasks sites (columns df_input)) (rows df_input))"

text \<open>Every row has a value under \<open>Brand\<close>, so \<open>row['Brand']\<close> never raises.\<close>

definition brand_column_present :: "dataframe \<Rightarrow> bool" where
  "brand_column_present df_input =
     list_all (\<lambda>row. map_of (zip (columns df_input) row) ''Brand'' \<noteq> None) (rows df_input)"

text \<open>
  A result row is on its site: its \<open>Site\<close> names one of the given sites, and its
  \<open>Product URL\<close> contains that site's \<open>domain_check\<close>.
\<close>

definition row_ok :: "(string \<times> site_config) list \<Rightarrow> result_row \<Rightarrow> bool" where
  "row_ok sites r =
     list_ex (\<lambda>(name, config). name = Site r \<and> str_in (domain_check config) (Product_URL r)) sites"

section \<open>Example data\<close>

text \<open>
  Settings, elements, pages and drivers for the examples: an element whose reads all
  succeed, a page whose script succeeds and whose selectors find what a table says, and a
  driver that fails on some tasks and loads one page on the others.
\<close>

definition example_settings :: "bool \<Rightarrow> int \<Rightarrow> settings" where
  "example_settings enabled cap =
     \<lparr>sites_config = map_of [(''Alibaba'', True), (''DHgate'', True), (''Made-in-China'', False)],
      fuzzy_enabled = enabled, fuzzy_threshold = 80, max_links_per_site = cap\<rparr>"

definition plain_link :: "string \<Rightarrow> string \<Rightarrow> element" where
  "plain_link href txt =
     \<lparr>el_href = Inr (Some href), el_text = Inr txt, el_title = Inr None, el_alt = Inr None\<rparr>"

definition static_page :: "(string \<times> element list) list \<Rightarrow> page" where
  "static_page found =
     \<lparr>execute_script = Inr (),
      find_elements = (\<lambda>selector. Inr (case map_of found selector of Some links \<Rightarrow> links | None \<Rightarrow> []))\<rparr>"

definition example_driver :: "nat list \<Rightarrow> page \<Rightarrow> driver" where
  "example_driver failing pg task_no url =
     (if task_no \<in> set failing then Inl (WebDriverException ''timeout'') else Inr pg)"

definition site_named :: "string \<Rightarrow> site_config" where
  "site_named name = the (map_of all_configs name)"

definition example_table :: dataframe where
  "example_table =
     \<lparr>columns = [''Brand'', ''Keyword1''], rows = [[Some ''Acme'', Some ''shoes'']]\<rparr>"

definition gap_table :: dataframe where
  "gap_table =
     \<lparr>columns = [''Brand'', ''Keyword1'', ''Keyword2''],
      rows = [[Some ''Acme'', Some ''shoes'', None]]\<rparr>"

definition example_page :: page where
  "example_page =
     static_page
       [(product_selector (site_named ''DHgate''),
         [plain_link ''https://www.dhgate.com/product/acme-shoes/1.html'' ''Acme Shoes Deluxe'',
          plain_link ''https://other.example/product/2.html'' ''Acme Boots''])]"

definition example_row :: result_row where
  "example_row =
     \<lparr>Brand = Some ''Acme'', Keyword = ''shoes'', Site = ''DHgate'',
      Product_URL = ''https://www.dhgate.com/product/acme-shoes/1.html''\<rparr>"

section \<open>Facts about the string functions\<close>

text \<open>The two character tests at the ends of their ranges, and just outside.\<close>

lemma lower_char_values:
  "lower_char CHR ''A'' = CHR ''a''" "lower_char CHR ''Z'' = CHR ''z''"
  "lower_char CHR ''@'' = CHR ''@''" "lower_char CHR ''['' = CHR ''[''"
  "lower_char CHR ''a'' = CHR ''a''" "lower_char CHR ''7'' = CHR ''7''"
  "lower_char (CHR 0xC0) = CHR 0xE0" "lower_char (CHR 0xD6) = CHR 0xF6"
  "lower_char (CHR 0xD7) = CHR 0xD7"
  "lower_char (CHR 0xD8) = CHR 0xF8" "lower_char (CHR 0xDE) = CHR 0xFE"
  "lower_char (CHR 0xDF) = CHR 0xDF" "lower_char (CHR 0xB5) = CHR 0xB5"
  "lower_char (CHR 0xE9) = CHR 0xE9" "lower_char (CHR 0xFF) = CHR 0xFF"
  by code_simp+

lemma is_space_iff:
  "is_space c \<longleftrightarrow> (of_char c :: nat) \<in> {9, 10, 11, 12, 13, 28, 29, 30, 31, 32, 133, 160}"
  unfolding is_space_def Let_def by auto

lemma is_space_values:
  "is_space CHR '' ''" "is_space (CHR 0x09)" "is_space (CHR 0x0A)" "is_space (CHR 0x0D)"
  "is_space (CHR 0x1C)" "is_space (CHR 0x1F)" "is_space (CHR 0x85)" "is_space (CHR 0xA0)"
  "\<not> is_space (CHR 0x08)" "\<not> is_space (CHR 0x0E)" "\<not> is_space (CHR 0x1B)"
  "\<not> is_space CHR ''!''" "\<not> is_space CHR ''a''" "\<not> is_space (CHR 0x84)"
  "\<not> is_space (CHR 0xA1)"
  by code_simp+

lemma length_str_lower: "length (str_lower s) = length s"
  by (simp add: str_lower_def)

lemma str_split_examples:
  "str_split ''  ab  cde f   '' = [''ab'', ''cde'', ''f'']"
  "str_split (''cheap'' @ CHR 0xA0 # ''adidaz'') = [''cheap'', ''adidaz'']"
  "str_split (''one'' @ CHR 0x85 # CHR 0x09 # ''two'') = [''one'', ''two'']"
  "str_split [] = []"
  by code_simp+

lemma str_lower_examples:
  "str_lower ''Hello World-X9Z'' = ''hello world-x9z''"
  "str_lower (CHR 0xC0 # ''CME shoes'') = CHR 0xE0 # ''cme shoes''"
  "str_lower (''NESTL'' @ [CHR 0xC9]) = ''nestl'' @ [CHR 0xE9]"
  by code_simp+

lemma starts_with_iff: "starts_with s p \<longleftrightarrow> (\<exists>r. s = p @ r)"
  by (induction s p rule: starts_with.induct) auto

lemma str_in_iff: "str_in x s \<longleftrightarrow> (\<exists>before after. s = before @ x @ after)"
proof (induction s)
  case Nil
  then show ?case by simp
next
  case (Cons c cs)
  show ?case
  proof
    assume "str_in x (c # cs)"
    then consider "starts_with (c # cs) x" | "str_in x cs" by auto
    then show "\<exists>before after. c # cs = before @ x @ after"
    proof cases
      case 1
      then obtain r where "c # cs = x @ r" by (auto simp: starts_with_iff)
      then have "c # cs = [] @ x @ r" by simp
      then show ?thesis by blast
    next
      case 2
      then obtain p q where "cs = p @ x @ q" using Cons.IH by blast
      then have "c # cs = (c # p) @ x @ q" by simp
      then show ?thesis by blast
    qed
  next
    assume "\<exists>before after. c # cs = before @ x @ after"
    then obtain p q where pq: "c # cs = p @ x @ q" by blast
    show "str_in x (c # cs)"
    proof (cases p)
      case Nil
      with pq have "starts_with (c # cs) x" by (auto simp: starts_with_iff)
      then show ?thesis by simp
    next
      case (Cons d p')
      with pq have "cs = p' @ x @ q" by simp
      then have "str_in x cs" using Cons.IH by blast
      then show ?thesis by simp
    qed
  qed
qed

section \<open>Facts about the matcher\<close>

lemma scan_words_found:
  "fst (scan_words similarity b t ws) \<longleftrightarrow>
     (\<exists>w \<in> set ws. 3 \<le> length w \<and> of_int t \<le> similarity b w)"
  by (induction ws) (auto split: prod.splits)

lemma scan_words_compared:
  "snd (scan_words similarity b t ws) =
     takeWhile (\<lambda>w. \<not> of_int t \<le> similarity b w) (filter (\<lambda>w. 3 \<le> length w) ws) @
     take 1 (dropWhile (\<lambda>w. \<not> of_int t \<le> similarity b w) (filter (\<lambda>w. 3 \<le> length w) ws))"
  by (induction ws) (auto split: prod.splits)

lemma fuzzy_match_brand_disabled:
  "fuzzy_match_brand similarity False text brand_name t =
     str_in (str_lower brand_name) (str_lower text)"
  by (simp add: fuzzy_match_brand_def fuzzy_match_trace_def)

lemma fuzzy_match_brand_enabled:
  "fuzzy_match_brand similarity True text brand_name t \<longleftrightarrow>
     str_in (str_lower brand_name) (str_lower text) \<or>
     (\<exists>w \<in> set (str_split (str_lower text)).
        3 \<le> length w \<and> of_int t \<le> similarity (str_lower brand_name) w)"
  by (simp add: fuzzy_match_brand_def fuzzy_match_trace_def Let_def scan_words_found)

text \<open>
  Claim C3. Whatever the text, the brand and the threshold, and whether fuzzy matching is
  enabled or not: when the lowercased brand is a substring of the lowercased text,
  \<open>fuzzy_match_brand\<close> returns true.
\<close>

theorem substring_always_matches:
  "str_in (str_lower brand_name) (str_lower text) \<Longrightarrow>
   fuzzy_match_brand similarity enabled text brand_name t"
  by (cases enabled) (simp_all add: fuzzy_match_brand_disabled fuzzy_match_brand_enabled)

theorem substring_always_matches_witness:
  "str_in (str_lower (CHR 0xE0 # ''cMe'')) (str_lower (CHR 0xC0 # ''CME shoes'')) \<and>
   \<not> str_in (CHR 0xE0 # ''cMe'') (CHR 0xC0 # ''CME shoes'') \<and>
   fuzzy_match_brand prefix_similarity True (CHR 0xC0 # ''CME shoes'') (CHR 0xE0 # ''cMe'') 100 \<and>
   fuzzy_match_brand prefix_similarity False (CHR 0xC0 # ''CME shoes'') (CHR 0xE0 # ''cMe'') 100"
proof -
  have h: "str_in (str_lower (CHR 0xE0 # ''cMe'')) (str_lower (CHR 0xC0 # ''CME shoes''))"
    by code_simp
  have raw: "\<not> str_in (CHR 0xE0 # ''cMe'') (CHR 0xC0 # ''CME shoes'')" by code_simp
  show ?thesis
    using h raw substring_always_matches [OF h, of prefix_similarity True 100]
      substring_always_matches [OF h, of prefix_similarity False 100]
    by simp
qed

text \<open>
  Claim C4. With fuzzy matching disabled, for every text, brand and threshold,
  \<open>fuzzy_match_brand\<close> returns true exactly when the lowercased brand is a substring of
  the lowercased text: when the text, lowercased character by character, is some string,
  then the brand lowercased in the same way, then some string.
\<close>

theorem disabled_is_substring_test:
  "\<not> enabled \<Longrightarrow>
   fuzzy_match_brand similarity enabled text brand_name t =
     str_in (str_lower brand_name) (str_lower text) \<and>
   (fuzzy_match_brand similarity enabled text brand_name t \<longleftrightarrow>
      (\<exists>before after. map lower_char text = before @ map lower_char brand_name @ after))"
  by (simp add: fuzzy_match_brand_disabled str_in_iff str_lower_def)

theorem disabled_is_substring_test_witness:
  "\<not> False \<and>
   str_in (str_lower (CHR 0xE0 # ''cMe'')) (str_lower (CHR 0xC0 # ''CME shoes'')) \<and>
   \<not> str_in (CHR 0xE0 # ''cMe'') (CHR 0xC0 # ''CME shoes'') \<and>
   fuzzy_match_brand prefix_similarity False (CHR 0xC0 # ''CME shoes'') (CHR 0xE0 # ''cMe'') 0 \<and>
   \<not> str_in (str_lower ''Acne'') (str_lower ''ACME-shoes'') \<and>
   \<not> fuzzy_match_brand prefix_similarity False ''ACME-shoes'' ''Acne'' 0"
proof -
  have h: "\<not> False" by simp
  have y: "str_in (str_lower (CHR 0xE0 # ''cMe'')) (str_lower (CHR 0xC0 # ''CME shoes''))"
    by code_simp
  have raw: "\<not> str_in (CHR 0xE0 # ''cMe'') (CHR 0xC0 # ''CME shoes'')" by code_simp
  have n: "\<not> str_in (str_lower ''Acne'') (str_lower ''ACME-shoes'')" by code_simp
  from disabled_is_substring_test [OF h, of prefix_similarity "CHR 0xC0 # ''CME shoes''"
      "CHR 0xE0 # ''cMe''" 0] y
  have yes: "fuzzy_match_brand prefix_similarity False (CHR 0xC0 # ''CME shoes'')
      (CHR 0xE0 # ''cMe'') 0"
    by blast
  from disabled_is_substring_test [OF h, of prefix_similarity "''ACME-shoes''" "''Acne''" 0] n
  have no: "\<not> fuzzy_match_brand prefix_similarity False ''ACME-shoes'' ''Acne'' 0"
    by blast
  show ?thesis using y raw n yes no by blast
qed

text \<open>
  Claim C5. With fuzzy matching enabled and the lowercased brand not a substring of the
  lowercased text, \<open>fuzzy_match_brand\<close> returns true exactly when some whitespace-delimited
  token of the lowercased text, of length at least 3, has a similarity to the lowercased
  brand that reaches the threshold. The scan stops at the first such token: the words
  compared are the tokens of length at least 3 up to and including the first one that
  qualifies, and none after it.
\<close>

theorem enabled_scans_tokens:
  "enabled \<Longrightarrow> \<not> str_in (str_lower brand_name) (str_lower text) \<Longrightarrow>
   (fuzzy_match_brand similarity enabled text brand_name t \<longleftrightarrow>
      (\<exists>w \<in> set (str_split (str_lower text)).
         3 \<le> length w \<and> of_int t \<le> similarity (str_lower brand_name) w)) \<and>
   snd (fuzzy_match_trace similarity enabled text brand_name t) =
     takeWhile (\<lambda>w. \<not> of_int t \<le> similarity (str_lower brand_name) w)
       (filter (\<lambda>w. 3 \<le> length w) (str_split (str_lower text))) @
     take 1 (dropWhile (\<lambda>w. \<not> of_int t \<le> similarity (str_lower brand_name) w)
       (filter (\<lambda>w. 3 \<le> length w) (str_split (str_lower text))))"
  by (simp add: fuzzy_match_brand_def fuzzy_match_trace_def Let_def scan_words_found
      scan_words_compared)

theorem enabled_scans_tokens_witness:
  "True \<and>
   \<not> str_in (str_lower ''Adidas'') (str_lower (''Cheap'' @ CHR 0xA0 # ''ADIDAZ shoes by adi'')) \<and>
   str_split (str_lower (''Cheap'' @ CHR 0xA0 # ''ADIDAZ shoes by adi'')) =
     [''cheap'', ''adidaz'', ''shoes'', ''by'', ''adi''] \<and>
   fuzzy_match_brand prefix_similarity True (''Cheap'' @ CHR 0xA0 # ''ADIDAZ shoes by adi'')
     ''Adidas'' 80 \<and>
   snd (fuzzy_match_trace prefix_similarity True (''Cheap'' @ CHR 0xA0 # ''ADIDAZ shoes by adi'')
     ''Adidas'' 80) = [''cheap'', ''adidaz''] \<and>
   \<not> fuzzy_match_brand prefix_similarity True (''Cheap'' @ CHR 0xA0 # ''ADIDAZ shoes by adi'')
     ''Adidas'' 90 \<and>
   snd (fuzzy_match_trace prefix_similarity True (''Cheap'' @ CHR 0xA0 # ''ADIDAZ shoes by adi'')
     ''Adidas'' 90) = [''cheap'', ''adidaz'', ''shoes'', ''adi'']"
proof -
  have n: "\<not> str_in (str_lower ''Adidas'')
      (str_lower (''Cheap'' @ CHR 0xA0 # ''ADIDAZ shoes by adi''))"
    by code_simp
  have toks: "str_split (str_lower (''Cheap'' @ CHR 0xA0 # ''ADIDAZ shoes by adi'')) =
      [''cheap'', ''adidaz'', ''shoes'', ''by'', ''adi'']"
    by code_simp
  have s1: "prefix_similarity (str_lower ''Adidas'') ''cheap'' = 0" by code_simp
  have s2: "prefix_similarity (str_lower ''Adidas'') ''adidaz'' = 250 / 3" by code_simp
  have s3: "prefix_similarity (str_lower ''Adidas'') ''shoes'' = 0" by code_simp
  have s4: "prefix_similarity (str_lower ''Adidas'') ''adi'' = 200 / 3" by code_simp
  note at_80 = enabled_scans_tokens [OF TrueI n, of prefix_similarity 80, unfolded toks]
  note at_90 = enabled_scans_tokens [OF TrueI n, of prefix_similarity 90, unfolded toks]
  have yes: "fuzzy_match_brand prefix_similarity True
      (''Cheap'' @ CHR 0xA0 # ''ADIDAZ shoes by adi'') ''Adidas'' 80"
    and seen_80: "snd (fuzzy_match_trace prefix_similarity True
      (''Cheap'' @ CHR 0xA0 # ''ADIDAZ shoes by adi'') ''Adidas'' 80) = [''cheap'', ''adidaz'']"
    using at_80 by (simp_all add: s1 s2 s3 s4)
  have no: "\<not> fuzzy_match_brand prefix_similarity True
      (''Cheap'' @ CHR 0xA0 # ''ADIDAZ shoes by adi'') ''Adidas'' 90"
    and seen_90: "snd (fuzzy_match_trace prefix_similarity True
      (''Cheap'' @ CHR 0xA0 # ''ADIDAZ shoes by adi'') ''Adidas'' 90) =
        [''cheap'', ''adidaz'', ''shoes'', ''adi'']"
    using at_90 by (simp_all add: s1 s2 s3 s4)
  show ?thesis
    using n toks yes seen_80 no seen_90 by blast
qed

text \<open>
  Claim C10. For a fixed text and brand, with fuzzy matching enabled, the matcher is
  antitone in the threshold: a match at threshold \<open>t\<close> is a match at every \<open>t' \<le> t\<close>.
\<close>

theorem threshold_antitone:
  "fuzzy_match_brand similarity True text brand_name t \<Longrightarrow> t' \<le> t \<Longrightarrow>
   fuzzy_match_brand similarity True text brand_name t'"
proof -
  assume m: "fuzzy_match_brand similarity True text brand_name t" and le: "t' \<le> t"
  have "(of_int t' :: rat) \<le> of_int t" using le by simp
  then have "\<And>w. of_int t \<le> similarity (str_lower brand_name) w \<Longrightarrow>
                 of_int t' \<le> similarity (str_lower brand_name) w"
    by (rule order_trans)
  with m show ?thesis
    unfolding fuzzy_match_brand_enabled by blast
qed

theorem threshold_antitone_witness:
  "fuzzy_match_brand prefix_similarity True ''Cheap Adidaz shoes'' ''Adidas'' 80 \<and>
   (70::int) \<le> 80 \<and>
   fuzzy_match_brand prefix_similarity True ''Cheap Adidaz shoes'' ''Adidas'' 70"
proof -
  have m: "fuzzy_match_brand prefix_similarity True ''Cheap Adidaz shoes'' ''Adidas'' 80"
    by code_simp
  have le: "(70::int) \<le> 80" by simp
  show ?thesis using m le threshold_antitone [OF m le] by simp
qed

section \<open>The link extractor\<close>

lemma extend_links_all_found:
  "\<forall>sel \<in> set sels. \<not> isl (find_elements pg sel) \<Longrightarrow>
   extend_links pg sels links =
     (sels, Inr (links @ concat (map (\<lambda>sel. projr (find_elements pg sel)) sels)))"
proof (induction sels arbitrary: links)
  case Nil
  then show ?case by simp
next
  case (Cons sel sels)
  from Cons.prems obtain found where f: "find_elements pg sel = Inr found"
    by (cases "find_elements pg sel") auto
  from Cons.prems have rest: "\<forall>s \<in> set sels. \<not> isl (find_elements pg s)" by simp
  show ?case by (simp add: f Cons.IH [OF rest])
qed

text \<open>
  Claim C7. When the primary selector finds no element and the profile has additional
  selectors, every additional selector is queried, in order, and the results of all of
  them are joined, in order (none of the queries raising); the search does not stop at the
  first one that finds something. When the primary selector finds at least one element,
  it is the only selector queried, and its elements are the result.
\<close>

theorem fallbacks_all_or_none:
  "(find_elements pg (product_selector config) = Inr [] \<and>
    additional_selectors config \<noteq> [] \<and>
    (\<forall>sel \<in> set (additional_selectors config). \<not> isl (find_elements pg sel)) \<longrightarrow>
      extract_links pg config =
        (product_selector config # additional_selectors config,
         Inr (concat (map (\<lambda>sel. projr (find_elements pg sel)) (additional_selectors config))))) \<and>
   (find_elements pg (product_selector config) = Inr links \<and> links \<noteq> [] \<longrightarrow>
      extract_links pg config = ([product_selector config], Inr links))"
  by (simp add: extract_links_def extend_links_all_found)

theorem fallbacks_all_or_none_witness:
  "find_elements
     (static_page [(''.item-link a'', [plain_link ''u1'' ''one'']),
                   (''.product-item a'', [plain_link ''u2'' ''two''])])
     (product_selector (site_named ''Made-in-China'')) = Inr [] \<and>
   additional_selectors (site_named ''Made-in-China'') \<noteq> [] \<and>
   extract_links
     (static_page [(''.item-link a'', [plain_link ''u1'' ''one'']),
                   (''.product-item a'', [plain_link ''u2'' ''two''])])
     (site_named ''Made-in-China'') =
       (product_selector (site_named ''Made-in-China'') #
          additional_selectors (site_named ''Made-in-China''),
        Inr [plain_link ''u1'' ''one'', plain_link ''u2'' ''two'']) \<and>
   extract_links
     (static_page [(product_selector (site_named ''Made-in-China''), [plain_link ''u0'' ''zero'']),
                   (''.item-link a'', [plain_link ''u1'' ''one''])])
     (site_named ''Made-in-China'') =
       ([product_selector (site_named ''Made-in-China'')], Inr [plain_link ''u0'' ''zero''])"
proof -
  let ?config = "site_named ''Made-in-China''"
  let ?pg = "static_page [(''.item-link a'', [plain_link ''u1'' ''one'']),
                   (''.product-item a'', [plain_link ''u2'' ''two''])]"
  let ?pg' = "static_page [(product_selector ?config, [plain_link ''u0'' ''zero'']),
                   (''.item-link a'', [plain_link ''u1'' ''one''])]"
  have none: "find_elements ?pg (product_selector ?config) = Inr []"
    by (simp add: static_page_def site_named_def all_configs_def)
  have more: "additional_selectors ?config \<noteq> []"
    by (simp add: site_named_def all_configs_def)
  have ok: "\<forall>sel \<in> set (additional_selectors ?config). \<not> isl (find_elements ?pg sel)"
    by (simp add: static_page_def)
  have found: "concat (map (\<lambda>sel. projr (find_elements ?pg sel)) (additional_selectors ?config)) =
      [plain_link ''u1'' ''one'', plain_link ''u2'' ''two'']"
    by (simp add: static_page_def site_named_def all_configs_def)
  have some: "find_elements ?pg' (product_selector ?config) = Inr [plain_link ''u0'' ''zero'']"
    by (simp add: static_page_def)
  show ?thesis
    using none more ok found some
      fallbacks_all_or_none [of ?pg ?config]
      fallbacks_all_or_none [of ?pg' ?config "[plain_link ''u0'' ''zero'']"]
    by simp
qed

section \<open>The result collector\<close>

text \<open>
  Claim C1. With fuzzy matching disabled, for a candidate whose \<open>href\<close> is present, not
  empty and contains the site's \<open>domain_check\<close>, and a brand that is a string: on a site
  with \<open>brand_in_url\<close> the candidate is accepted (\<open>should_add\<close> is true and the href joins
  \<open>unique_links\<close>) exactly when the lowercased brand is a substring of the lowercased
  href; on a site without \<open>brand_in_url\<close>, once its text, title and alt have been read,
  the candidate is accepted whatever they are.
\<close>

theorem disabled_acceptance:
  assumes off: "\<not> fuzzy_enabled cfg"
    and href: "el_href link = Inr (Some href)"
    and nonempty: "href \<noteq> []"
    and domain: "str_in (domain_check config) href"
  shows "(brand_in_url config \<longrightarrow>
            should_add_link similarity cfg config (Some brand_name) link href =
              Inr (str_in (str_lower brand_name) (str_lower href)) \<and>
            collect_links similarity cfg config (Some brand_name) [link] unique_links =
              Inr (if str_in (str_lower brand_name) (str_lower href)
                   then set_add href unique_links else unique_links)) \<and>
         (\<not> brand_in_url config \<and>
          \<not> isl (el_text link) \<and> \<not> isl (el_title link) \<and> \<not> isl (el_alt link) \<longrightarrow>
            should_add_link similarity cfg config (Some brand_name) link href = Inr True \<and>
            collect_links similarity cfg config (Some brand_name) [link] unique_links =
              Inr (set_add href unique_links))"
proof -
  have pass: "href_passes config (Some href)"
    using nonempty domain by (simp add: href_passes_def)
  have call: "\<And>text. call_fuzzy_match_brand similarity cfg text (Some brand_name) =
      Inr (str_in (str_lower brand_name) (str_lower text))"
    using off by (simp add: call_fuzzy_match_brand_def fuzzy_match_brand_disabled)
  have by_url: "should_add_link similarity cfg config (Some brand_name) link href =
      Inr (str_in (str_lower brand_name) (str_lower href))" if "brand_in_url config"
    using that by (simp add: should_add_link_def call)
  have by_text: "should_add_link similarity cfg config (Some brand_name) link href = Inr True"
    if "\<not> brand_in_url config" "\<not> isl (el_text link)" "\<not> isl (el_title link)"
      "\<not> isl (el_alt link)"
    using that off
    by (cases "el_text link"; cases "el_title link"; cases "el_alt link")
      (simp_all add: should_add_link_def call Let_def)
  show ?thesis
    using by_url by_text by (auto simp: href pass Let_def)
qed

theorem disabled_acceptance_witness:
  "\<not> fuzzy_enabled (example_settings False 12) \<and>
   str_in (domain_check (site_named ''Alibaba''))
     ''https://www.alibaba.com/product-detail/ACME-boots_1.html'' \<and>
   collect_links prefix_similarity (example_settings False 12) (site_named ''Alibaba'')
     (Some ''Acme'')
     [plain_link ''https://www.alibaba.com/product-detail/ACME-boots_1.html'' ''Boots''] [] =
     Inr [''https://www.alibaba.com/product-detail/ACME-boots_1.html''] \<and>
   collect_links prefix_similarity (example_settings False 12) (site_named ''Alibaba'')
     (Some ''Globex'')
     [plain_link ''https://www.alibaba.com/product-detail/ACME-boots_1.html'' ''Boots''] [] =
     Inr [] \<and>
   collect_links prefix_similarity (example_settings False 12) (site_named ''Alibaba'')
     (Some (''NESTL'' @ [CHR 0xC9]))
     [plain_link (''https://www.alibaba.com/product-detail/nestl'' @ CHR 0xE9 # ''-bar_1.html'')
        ''Bar''] [] =
     Inr [''https://www.alibaba.com/product-detail/nestl'' @ CHR 0xE9 # ''-bar_1.html''] \<and>
   str_in (domain_check (site_named ''DHgate'')) ''https://www.dhgate.com/product/boots/2.html'' \<and>
   collect_links prefix_similarity (example_settings False 12) (site_named ''DHgate'')
     (Some ''Globex'')
     [plain_link ''https://www.dhgate.com/product/boots/2.html'' ''Acme boots''] [] =
     Inr [''https://www.dhgate.com/product/boots/2.html'']"
proof -
  let ?cfg = "example_settings False 12"
  let ?a = "''https://www.alibaba.com/product-detail/ACME-boots_1.html''"
  let ?n = "''https://www.alibaba.com/product-detail/nestl'' @ CHR 0xE9 # ''-bar_1.html''"
  let ?d = "''https://www.dhgate.com/product/boots/2.html''"
  have off: "\<not> fuzzy_enabled ?cfg" by (simp add: example_settings_def)
  have href_a: "el_href (plain_link ?a ''Boots'') = Inr (Some ?a)" by (simp add: plain_link_def)
  have href_n: "el_href (plain_link ?n ''Bar'') = Inr (Some ?n)" by (simp add: plain_link_def)
  have href_d: "el_href (plain_link ?d ''Acme boots'') = Inr (Some ?d)"
    by (simp add: plain_link_def)
  have ne_a: "?a \<noteq> []" by simp
  have ne_n: "?n \<noteq> []" by simp
  have ne_d: "?d \<noteq> []" by simp
  have dom_a: "str_in (domain_check (site_named ''Alibaba'')) ?a" by code_simp
  have dom_n: "str_in (domain_check (site_named ''Alibaba'')) ?n" by code_simp
  have dom_d: "str_in (domain_check (site_named ''DHgate'')) ?d" by code_simp
  have in_url: "brand_in_url (site_named ''Alibaba'')" by code_simp
  have in_text: "\<not> brand_in_url (site_named ''DHgate'')" by code_simp
  have reads: "\<not> isl (el_text (plain_link ?d ''Acme boots''))"
    "\<not> isl (el_title (plain_link ?d ''Acme boots''))"
    "\<not> isl (el_alt (plain_link ?d ''Acme boots''))"
    by (simp_all add: plain_link_def)
  have acme: "str_in (str_lower ''Acme'') (str_lower ?a)" by code_simp
  have globex: "\<not> str_in (str_lower ''Globex'') (str_lower ?a)" by code_simp
  have nestle: "str_in (str_lower (''NESTL'' @ [CHR 0xC9])) (str_lower ?n)" by code_simp
  have one: "collect_links prefix_similarity ?cfg (site_named ''Alibaba'') (Some ''Acme'')
      [plain_link ?a ''Boots''] [] = Inr [?a]"
    using disabled_acceptance [OF off href_a ne_a dom_a, of prefix_similarity "''Acme''" "[]"]
      in_url acme
    by (simp add: set_add_def)
  have two: "collect_links prefix_similarity ?cfg (site_named ''Alibaba'') (Some ''Globex'')
      [plain_link ?a ''Boots''] [] = Inr []"
    using disabled_acceptance [OF off href_a ne_a dom_a, of prefix_similarity "''Globex''" "[]"]
      in_url globex
    by simp
  have three: "collect_links prefix_similarity ?cfg (site_named ''Alibaba'')
      (Some (''NESTL'' @ [CHR 0xC9])) [plain_link ?n ''Bar''] [] = Inr [?n]"
    using disabled_acceptance [OF off href_n ne_n dom_n, of prefix_similarity
        "''NESTL'' @ [CHR 0xC9]" "[]"] in_url nestle
    by (simp add: set_add_def)
  have four: "collect_links prefix_similarity ?cfg (site_named ''DHgate'') (Some ''Globex'')
      [plain_link ?d ''Acme boots''] [] = Inr [?d]"
    using disabled_acceptance [OF off href_d ne_d dom_d, of prefix_similarity "''Globex''" "[]"]
      in_text reads
    by (simp add: set_add_def)
  show ?thesis
    using off dom_a dom_d one two three four by simp
qed

lemma length_set_add: "length (set_add x xs) \<le> Suc (length xs)"
  by (simp add: set_add_def)

lemma distinct_set_add: "distinct xs \<Longrightarrow> distinct (set_add x xs)"
  by (simp add: set_add_def)

lemma collect_links_bound:
  "int (length acc) < max_links_per_site cfg \<Longrightarrow>
   collect_links similarity cfg config brand links acc = Inr u \<Longrightarrow>
   int (length u) \<le> max_links_per_site cfg"
proof (induction links arbitrary: acc)
  case Nil
  then show ?case by simp
next
  case (Cons link links)
  show ?case
  proof (cases "el_href link")
    case (Inl e)
    with Cons.prems show ?thesis by simp
  next
    case (Inr href)
    show ?thesis
    proof (cases "href_passes config href")
      case False
      with Inr Cons.prems Cons.IH show ?thesis by simp
    next
      case True
      show ?thesis
      proof (cases "should_add_link similarity cfg config brand link (the href)")
        case (Inl e)
        with Inr True Cons.prems show ?thesis by simp
      next
        case add: (Inr should_add)
        define acc' where "acc' = (if should_add then set_add (the href) acc else acc)"
        have len: "int (length acc') \<le> max_links_per_site cfg"
          using Cons.prems(1) length_set_add [of "the href" acc] by (simp add: acc'_def)
        show ?thesis
        proof (cases "max_links_per_site cfg \<le> int (length acc')")
          case full: True
          with Inr True add Cons.prems(2) have "u = acc'"
            by (simp add: acc'_def Let_def)
          with len show ?thesis by simp
        next
          case room: False
          with Inr True add Cons.prems(2)
          have "collect_links similarity cfg config brand links acc' = Inr u"
            by (simp add: acc'_def Let_def)
          moreover from room have "int (length acc') < max_links_per_site cfg" by simp
          ultimately show ?thesis by (rule Cons.IH [rotated])
        qed
      qed
    qed
  qed
qed

lemma collect_links_distinct:
  "distinct acc \<Longrightarrow> collect_links similarity cfg config brand links acc = Inr u \<Longrightarrow> distinct u"
proof (induction links arbitrary: acc)
  case Nil
  then show ?case by simp
next
  case (Cons link links)
  have step: "\<And>acc'. distinct acc' \<Longrightarrow>
      collect_links similarity cfg config brand links acc' = Inr u \<Longrightarrow> distinct u"
    by (rule Cons.IH)
  from Cons.prems(1) have d: "\<And>x. distinct (set_add x acc)" by (rule distinct_set_add)
  from Cons.prems show ?case
    by (auto simp: Let_def d split: sum.splits if_splits intro: step [OF d] step)
qed

lemma collect_links_domain:
  "collect_links similarity cfg config brand links acc = Inr u \<Longrightarrow>
   \<forall>h \<in> set acc. str_in (domain_check config) h \<Longrightarrow>
   \<forall>h \<in> set u. str_in (domain_check config) h"
proof (induction links arbitrary: acc)
  case Nil
  then show ?case by simp
next
  case (Cons link links)
  show ?case
  proof (cases "el_href link")
    case (Inl e)
    with Cons.prems show ?thesis by simp
  next
    case (Inr href)
    show ?thesis
    proof (cases "href_passes config href")
      case False
      with Inr Cons.prems Cons.IH show ?thesis by simp
    next
      case True
      then have dom: "str_in (domain_check config) (the href)"
        by (auto simp: href_passes_def split: option.splits)
      show ?thesis
      proof (cases "should_add_link similarity cfg config brand link (the href)")
        case (Inl e)
        with Inr True Cons.prems show ?thesis by simp
      next
        case add: (Inr should_add)
        define acc' where "acc' = (if should_add then set_add (the href) acc else acc)"
        have ok: "\<forall>h \<in> set acc'. str_in (domain_check config) h"
          using Cons.prems(2) dom by (auto simp: acc'_def set_add_def)
        show ?thesis
        proof (cases "max_links_per_site cfg \<le> int (length acc')")
          case full: True
          with Inr True add Cons.prems(1) have "u = acc'"
            by (simp add: acc'_def Let_def)
          with ok show ?thesis by simp
        next
          case room: False
          with Inr True add Cons.prems(1)
          have "collect_links similarity cfg config brand links acc' = Inr u"
            by (simp add: acc'_def Let_def)
          then show ?thesis using ok by (rule Cons.IH)
        qed
      qed
    qed
  qed
qed

lemma scrape_page_bound:
  "1 \<le> max_links_per_site cfg \<Longrightarrow>
   scrape_page similarity cfg drv n config brand term = Inr u \<Longrightarrow>
   int (length u) \<le> max_links_per_site cfg"
  by (auto simp: scrape_page_def split: sum.splits dest!: collect_links_bound [rotated])

lemma scrape_page_domain:
  "scrape_page similarity cfg drv n config brand term = Inr u \<Longrightarrow> h \<in> set u \<Longrightarrow>
   str_in (domain_check config) h"
  using collect_links_domain [of similarity cfg config brand _ "[]" u]
  by (auto simp: scrape_page_def split: sum.splits)

text \<open>What the inner \<open>try\<close> makes of each kind of failure: the task's outcome is the exception.\<close>

lemma scrape_page_raises:
  "drv n (search_url config term) = Inl e \<Longrightarrow>
     scrape_page similarity cfg drv n config brand term = Inl e"
  "drv n (search_url config term) = Inr pg \<Longrightarrow> execute_script pg = Inl e \<Longrightarrow>
     scrape_page similarity cfg drv n config brand term = Inl e"
  "drv n (search_url config term) = Inr pg \<Longrightarrow> execute_script pg = Inr u \<Longrightarrow>
   snd (extract_links pg config) = Inl e \<Longrightarrow>
     scrape_page similarity cfg drv n config brand term = Inl e"
  "drv n (search_url config term) = Inr pg \<Longrightarrow> execute_script pg = Inr u \<Longrightarrow>
   snd (extract_links pg config) = Inr links \<Longrightarrow>
   collect_links similarity cfg config brand links [] = Inl e \<Longrightarrow>
     scrape_page similarity cfg drv n config brand term = Inl e"
  by (simp_all add: scrape_page_def)

section \<open>The pipeline driver\<close>

lemma run_task_results:
  "run_task similarity cfg drv total_ops brand keyword (site_name, config) st = Inr st' \<Longrightarrow>
   results st' = results st @
     (case scrape_page similarity cfg drv (Suc (current_operation st)) config brand
             (cell_str brand @ '' '' @ keyword) of
        Inl e \<Rightarrow> []
      | Inr unique_links \<Rightarrow> map (make_row brand keyword site_name) unique_links)"
  by (auto simp: run_task_def Let_def split: if_splits sum.splits)

text \<open>
  Claim C6. With a cap of at least 1 (the sidebar's minimum), for every sequence of
  candidates the set of accepted hrefs the loop returns has at most \<open>max_links_per_site\<close>
  elements, without repetition, and a task appends at most that many rows to the results.
\<close>

theorem cap_never_exceeded:
  "1 \<le> max_links_per_site cfg \<Longrightarrow>
   (\<forall>u. collect_links similarity cfg config brand links [] = Inr u \<longrightarrow>
      int (length u) \<le> max_links_per_site cfg \<and> distinct u) \<and>
   (\<forall>st'. run_task similarity cfg drv total_ops brand keyword (site_name, config) st = Inr st' \<longrightarrow>
      (\<exists>new. results st' = results st @ new \<and> int (length new) \<le> max_links_per_site cfg))"
proof (intro conjI allI impI)
  fix u
  assume cap: "1 \<le> max_links_per_site cfg"
    and c: "collect_links similarity cfg config brand links [] = Inr u"
  from cap have "int (length ([]::string list)) < max_links_per_site cfg" by simp
  then show "int (length u) \<le> max_links_per_site cfg" using c by (rule collect_links_bound)
  show "distinct u" using c by (rule collect_links_distinct [rotated]) simp
next
  fix st'
  assume cap: "1 \<le> max_links_per_site cfg"
    and r: "run_task similarity cfg drv total_ops brand keyword (site_name, config) st = Inr st'"
  let ?new = "case scrape_page similarity cfg drv (Suc (current_operation st)) config brand
             (cell_str brand @ '' '' @ keyword) of
        Inl e \<Rightarrow> []
      | Inr unique_links \<Rightarrow> map (make_row brand keyword site_name) unique_links"
  have "results st' = results st @ ?new" using r by (rule run_task_results)
  moreover have "int (length ?new) \<le> max_links_per_site cfg"
    using cap scrape_page_bound [OF cap] by (auto split: sum.splits)
  ultimately show "\<exists>new. results st' = results st @ new \<and> int (length new) \<le> max_links_per_site cfg"
    by blast
qed

theorem cap_never_exceeded_witness:
  "1 \<le> max_links_per_site (example_settings True 2) \<and>
   collect_links prefix_similarity (example_settings True 2) (site_named ''DHgate'') (Some ''Acme'')
     [plain_link ''https://www.dhgate.com/product/1.html'' ''Acme one'',
      plain_link ''https://www.dhgate.com/product/1.html'' ''Acme one again'',
      plain_link ''https://www.dhgate.com/product/2.html'' ''Acme two'',
      plain_link ''https://www.dhgate.com/product/3.html'' ''Acme three''] [] =
     Inr [''https://www.dhgate.com/product/1.html'', ''https://www.dhgate.com/product/2.html''] \<and>
   int (length [''https://www.dhgate.com/product/1.html'', ''https://www.dhgate.com/product/2.html''])
     \<le> max_links_per_site (example_settings True 2)"
proof -
  have cap: "1 \<le> max_links_per_site (example_settings True 2)"
    by (simp add: example_settings_def)
  have c: "collect_links prefix_similarity (example_settings True 2) (site_named ''DHgate'')
     (Some ''Acme'')
     [plain_link ''https://www.dhgate.com/product/1.html'' ''Acme one'',
      plain_link ''https://www.dhgate.com/product/1.html'' ''Acme one again'',
      plain_link ''https://www.dhgate.com/product/2.html'' ''Acme two'',
      plain_link ''https://www.dhgate.com/product/3.html'' ''Acme three''] [] =
     Inr [''https://www.dhgate.com/product/1.html'', ''https://www.dhgate.com/product/2.html'']"
    by code_simp
  from cap_never_exceeded [OF cap] c
  have "int (length [''https://www.dhgate.com/product/1.html'',
      ''https://www.dhgate.com/product/2.html'']) \<le> max_links_per_site (example_settings True 2)"
    by blast
  with cap c show ?thesis by blast
qed

text \<open>
  The cap must be at least 1: the test of the cap comes after the insertion, so with a
  cap of 0 the first accepted href is kept.
\<close>

lemma cap_zero_keeps_one:
  "collect_links prefix_similarity (example_settings True 0) (site_named ''DHgate'') (Some ''Acme'')
     [plain_link ''https://www.dhgate.com/product/1.html'' ''Acme one''] [] =
     Inr [''https://www.dhgate.com/product/1.html'']"
  by code_simp

lemma for_each_append:
  "for_each body (xs @ ys) s =
     (case for_each body xs s of Inl e \<Rightarrow> Inl e | Inr s' \<Rightarrow> for_each body ys s')"
  by (induction xs arbitrary: s) (auto split: sum.splits)

lemma for_each_map_state: "for_each body (map m xs) s = for_each (\<lambda>x. body (m x)) xs s"
  by (induction xs arbitrary: s) (auto split: sum.splits)

lemma for_each_map: "for_each body (map m xs) = for_each (\<lambda>x. body (m x)) xs"
  by (intro ext) (rule for_each_map_state)

lemma for_each_concat_state:
  "for_each body (concat xss) s = for_each (\<lambda>xs. for_each body xs) xss s"
  by (induction xss arbitrary: s) (auto simp: for_each_append split: sum.splits)

lemma for_each_concat: "for_each body (concat xss) = for_each (\<lambda>xs. for_each body xs) xss"
  by (intro ext) (rule for_each_concat_state)

lemma for_each_cong:
  "(\<And>x s. x \<in> set xs \<Longrightarrow> f x s = g x s) \<Longrightarrow> for_each f xs s = for_each g xs s"
  by (induction xs arbitrary: s) (auto split: sum.splits)

lemma for_each_invariant:
  assumes step: "\<And>x s s'. x \<in> set xs \<Longrightarrow> I s \<Longrightarrow> body x s = Inr s' \<Longrightarrow> I s'"
    and init: "I s"
    and run: "for_each body xs s = Inr s'"
  shows "I s'"
  using assms
proof (induction xs arbitrary: s)
  case Nil
  then show ?case by simp
next
  case (Cons x xs)
  from Cons.prems(3) obtain s1 where b: "body x s = Inr s1"
    and rest: "for_each body xs s1 = Inr s'"
    by (auto split: sum.splits)
  have s1: "I s1"
    by (rule Cons.prems(1) [of x s s1]) (simp_all add: Cons.prems(2) b)
  show ?case
  proof (rule Cons.IH [OF _ s1 rest])
    fix y t t'
    assume "y \<in> set xs" "I t" "body y t = Inr t'"
    then show "I t'" using Cons.prems(1) [of y t t'] by simp
  qed
qed

text \<open>The three nested loops are one loop over the tasks.\<close>

lemma run_row_flat:
  assumes "map_of (zip cols row) ''Brand'' = Some brand"
  shows "run_row similarity cfg drv total_ops sites cols row st =
     for_each (\<lambda>(brand, keyword, site). run_task similarity cfg drv total_ops brand keyword site)
       (row_tasks sites cols row) st"
proof -
  have sites_loop: "run_sites similarity cfg drv total_ops sites brand =
      (\<lambda>keyword. for_each (run_task similarity cfg drv total_ops brand keyword) sites)"
    by (intro ext) (simp add: run_sites_def)
  show ?thesis
    using assms
    by (simp add: run_row_def run_keywords_def sites_loop row_tasks_def for_each_concat
        for_each_map)
qed

lemma run_rows_flat:
  assumes "\<forall>row \<in> set rws. map_of (zip cols row) ''Brand'' \<noteq> None"
  shows "for_each (run_row similarity cfg drv total_ops sites cols) rws st =
     for_each (\<lambda>(brand, keyword, site). run_task similarity cfg drv total_ops brand keyword site)
       (concat (map (row_tasks sites cols) rws)) st"
proof -
  have "for_each (run_row similarity cfg drv total_ops sites cols) rws st =
      for_each (\<lambda>row. for_each
        (\<lambda>(brand, keyword, site). run_task similarity cfg drv total_ops brand keyword site)
        (row_tasks sites cols row)) rws st"
  proof (rule for_each_cong)
    fix row s
    assume "row \<in> set rws"
    with assms obtain brand where "map_of (zip cols row) ''Brand'' = Some brand" by auto
    then show "run_row similarity cfg drv total_ops sites cols row s =
        for_each (\<lambda>(brand, keyword, site). run_task similarity cfg drv total_ops brand keyword site)
          (row_tasks sites cols row) s"
      by (rule run_row_flat)
  qed
  then show ?thesis by (simp add: for_each_concat for_each_map)
qed

lemma run_task_step:
  assumes "total_ops \<noteq> 0"
  shows "\<exists>st1. run_task similarity cfg drv total_ops brand keyword (site_name, config) st = Inr st1 \<and>
     current_operation st1 = Suc (current_operation st) \<and>
     results st1 = results st @
        (case scrape_page similarity cfg drv (Suc (current_operation st)) config brand
                (cell_str brand @ '' '' @ keyword) of
           Inl e \<Rightarrow> [] | Inr links \<Rightarrow> map (make_row brand keyword site_name) links) \<and>
     warnings st1 = warnings st @
        (case scrape_page similarity cfg drv (Suc (current_operation st)) config brand
                (cell_str brand @ '' '' @ keyword) of
           Inl e \<Rightarrow> [(site_name, e)] | Inr links \<Rightarrow> []) \<and>
     progress_reports st1 = progress_reports st @
        [of_nat (Suc (current_operation st)) / of_nat total_ops]"
  using assms
  by (cases "scrape_page similarity cfg drv (Suc (current_operation st)) config brand
                (cell_str brand @ '' '' @ keyword)")
    (simp_all add: run_task_def Let_def)

lemma run_tasks_closed:
  assumes "total_ops \<noteq> 0"
  shows "\<exists>st'.
     for_each (\<lambda>(brand, keyword, site). run_task similarity cfg drv total_ops brand keyword site)
       tasks st = Inr st' \<and>
     current_operation st' = current_operation st + length tasks \<and>
     results st' = results st @
       concat (map (\<lambda>(n, brand, keyword, site_name, config).
                 case scrape_page similarity cfg drv (Suc n) config brand
                        (cell_str brand @ '' '' @ keyword) of
                   Inl e \<Rightarrow> []
                 | Inr links \<Rightarrow> map (make_row brand keyword site_name) links)
               (enumerate (current_operation st) tasks)) \<and>
     warnings st' = warnings st @
       concat (map (\<lambda>(n, brand, keyword, site_name, config).
                 case scrape_page similarity cfg drv (Suc n) config brand
                        (cell_str brand @ '' '' @ keyword) of
                   Inl e \<Rightarrow> [(site_name, e)]
                 | Inr links \<Rightarrow> [])
               (enumerate (current_operation st) tasks)) \<and>
     progress_reports st' = progress_reports st @
       map (\<lambda>n. of_nat (Suc n) / of_nat total_ops)
         [current_operation st ..< current_operation st + length tasks]"
proof (induction tasks arbitrary: st)
  case Nil
  show ?case by simp
next
  case (Cons task tasks)
  obtain brand keyword site_name config where task: "task = (brand, keyword, site_name, config)"
    by (cases task) auto
  obtain st1 where first: "run_task similarity cfg drv total_ops brand keyword (site_name, config) st = Inr st1"
    and op1: "current_operation st1 = Suc (current_operation st)"
    and res1: "results st1 = results st @
        (case scrape_page similarity cfg drv (Suc (current_operation st)) config brand
                (cell_str brand @ '' '' @ keyword) of
           Inl e \<Rightarrow> [] | Inr links \<Rightarrow> map (make_row brand keyword site_name) links)"
    and warn1: "warnings st1 = warnings st @
        (case scrape_page similarity cfg drv (Suc (current_operation st)) config brand
                (cell_str brand @ '' '' @ keyword) of
           Inl e \<Rightarrow> [(site_name, e)] | Inr links \<Rightarrow> [])"
    and prog1: "progress_reports st1 = progress_reports st @
        [of_nat (Suc (current_operation st)) / of_nat total_ops]"
    using run_task_step [OF assms, of similarity cfg drv brand keyword site_name config st]
    by blast
  from Cons.IH [of st1] obtain st' where
    rest: "for_each (\<lambda>(brand, keyword, site). run_task similarity cfg drv total_ops brand keyword site)
       tasks st1 = Inr st'"
    and op': "current_operation st' = current_operation st1 + length tasks"
    and res': "results st' = results st1 @
       concat (map (\<lambda>(n, brand, keyword, site_name, config).
                 case scrape_page similarity cfg drv (Suc n) config brand
                        (cell_str brand @ '' '' @ keyword) of
                   Inl e \<Rightarrow> []
                 | Inr links \<Rightarrow> map (make_row brand keyword site_name) links)
               (enumerate (current_operation st1) tasks))"
    and warn': "warnings st' = warnings st1 @
       concat (map (\<lambda>(n, brand, keyword, site_name, config).
                 case scrape_page similarity cfg drv (Suc n) config brand
                        (cell_str brand @ '' '' @ keyword) of
                   Inl e \<Rightarrow> [(site_name, e)]
                 | Inr links \<Rightarrow> [])
               (enumerate (current_operation st1) tasks))"
    and prog': "progress_reports st' = progress_reports st1 @
       map (\<lambda>n. of_nat (Suc n) / of_nat total_ops)
         [current_operation st1 ..< current_operation st1 + length tasks]"
    by blast
  have upt: "[current_operation st ..< current_operation st + length (task # tasks)] =
      current_operation st # [Suc (current_operation st) ..< Suc (current_operation st) + length tasks]"
    by (subst upt_rec) simp
  have "for_each (\<lambda>(brand, keyword, site). run_task similarity cfg drv total_ops brand keyword site)
       (task # tasks) st = Inr st'"
    using first rest by (simp add: task)
  moreover have "current_operation st' = current_operation st + length (task # tasks)"
    using op' op1 by simp
  moreover have "results st' = results st @
       concat (map (\<lambda>(n, brand, keyword, site_name, config).
                 case scrape_page similarity cfg drv (Suc n) config brand
                        (cell_str brand @ '' '' @ keyword) of
                   Inl e \<Rightarrow> []
                 | Inr links \<Rightarrow> map (make_row brand keyword site_name) links)
               (enumerate (current_operation st) (task # tasks)))"
    using res' res1 op1 by (simp add: task)
  moreover have "warnings st' = warnings st @
       concat (map (\<lambda>(n, brand, keyword, site_name, config).
                 case scrape_page similarity cfg drv (Suc n) config brand
                        (cell_str brand @ '' '' @ keyword) of
                   Inl e \<Rightarrow> [(site_name, e)]
                 | Inr links \<Rightarrow> [])
               (enumerate (current_operation st) (task # tasks)))"
    using warn' warn1 op1 by (simp add: task)
  moreover have "progress_reports st' = progress_reports st @
       map (\<lambda>n. of_nat (Suc n) / of_nat total_ops)
         [current_operation st ..< current_operation st + length (task # tasks)]"
    using prog' prog1 op1 unfolding upt by simp
  ultimately show ?case by blast
qed

lemma keywords_need_column:
  "keywords_of cols row \<noteq> [] \<Longrightarrow> filter (str_in ''Keyword'') cols \<noteq> []"
proof -
  assume "keywords_of cols row \<noteq> []"
  then obtain col c where "(col, c) \<in> set (zip cols row)" and k: "str_in ''Keyword'' col"
    by (auto simp: keywords_of_def split: if_splits)
  then have "col \<in> set cols" by (auto dest: set_zip_leftD)
  with k show ?thesis by (auto simp: filter_empty_conv)
qed

text \<open>Where there is a task, \<open>total_operations\<close> is not zero: the division never raises.\<close>

lemma tasks_need_total:
  "tasks_of df sites \<noteq> [] \<Longrightarrow> total_operations_of df sites \<noteq> 0"
proof -
  assume "tasks_of df sites \<noteq> []"
  then obtain row where r: "row \<in> set (rows df)" and t: "row_tasks sites (columns df) row \<noteq> []"
    by (auto simp: tasks_of_def)
  from t have k: "keywords_of (columns df) row \<noteq> []" and s: "sites \<noteq> []"
    by (auto simp: row_tasks_def)
  from k have "keyword_columns df \<noteq> []"
    unfolding keyword_columns_def by (rule keywords_need_column)
  with r s show ?thesis by (auto simp: total_operations_of_def)
qed

lemma run_task_rows_ok:
  assumes run: "run_task similarity cfg drv total_ops brand keyword site st = Inr st'"
    and site: "site \<in> set sites"
    and ok: "\<forall>r \<in> set (results st). row_ok sites r"
  shows "\<forall>r \<in> set (results st'). row_ok sites r"
proof -
  obtain site_name config where s: "site = (site_name, config)" by (cases site)
  have new: "row_ok sites (make_row brand keyword site_name h)"
    if "scrape_page similarity cfg drv (Suc (current_operation st)) config brand
             (cell_str brand @ '' '' @ keyword) = Inr u" "h \<in> set u" for u h
    using scrape_page_domain [OF that] site
    by (auto simp: row_ok_def make_row_def s list_ex_iff)
  show ?thesis
    using run_task_results [OF run [unfolded s]] ok new
    by (auto split: sum.splits)
qed

lemma run_row_rows_ok:
  assumes run: "run_row similarity cfg drv total_ops sites cols row st = Inr st'"
    and ok: "\<forall>r \<in> set (results st). row_ok sites r"
  shows "\<forall>r \<in> set (results st'). row_ok sites r"
proof -
  from run obtain brand where
    kw: "for_each (run_sites similarity cfg drv total_ops sites brand) (keywords_of cols row) st = Inr st'"
    by (auto simp: run_row_def run_keywords_def split: option.splits)
  show ?thesis
  proof (rule for_each_invariant [where I = "\<lambda>s. \<forall>r \<in> set (results s). row_ok sites r", OF _ ok kw])
    fix keyword s s'
    assume inv: "\<forall>r \<in> set (results s). row_ok sites r"
      and sites_run: "run_sites similarity cfg drv total_ops sites brand keyword s = Inr s'"
    show "\<forall>r \<in> set (results s'). row_ok sites r"
    proof (rule for_each_invariant [where I = "\<lambda>s. \<forall>r \<in> set (results s). row_ok sites r",
          OF _ inv sites_run [unfolded run_sites_def]])
      fix site t t'
      assume "site \<in> set sites" "\<forall>r \<in> set (results t). row_ok sites r"
        "run_task similarity cfg drv total_ops brand keyword site t = Inr t'"
      then show "\<forall>r \<in> set (results t'). row_ok sites r"
        using run_task_rows_ok by blast
    qed
  qed
qed

lemma active_site:
  assumes "(name, config) \<in> set (get_site_configs enabled_sites)"
  shows "map_of all_configs name = Some config \<and> enabled_sites name = Some True"
proof -
  have d: "distinct (map fst all_configs)" by (simp add: all_configs_def)
  from assms have m: "(name, config) \<in> set all_configs"
    and e: "(case enabled_sites name of Some enabled \<Rightarrow> enabled | None \<Rightarrow> False)"
    by (auto simp: get_site_configs_def)
  from d m have "map_of all_configs name = Some config" by (rule map_of_is_SomeI)
  moreover from e have "enabled_sites name = Some True" by (auto split: option.splits)
  ultimately show ?thesis by simp
qed

text \<open>
  The example run: one brand, one keyword, Alibaba and DHgate active; the first task's
  navigation times out, the second finds two links, one of them off the site.
\<close>

lemma example_run:
  "run_scraper prefix_similarity (example_settings True 12)
     (Inr (example_driver [1] example_page)) example_table =
   Inr (Finished (Some [example_row])
         \<lparr>results = [example_row], current_operation = 2, progress_reports = [1 / 2, 1],
          warnings = [(''Alibaba'', WebDriverException ''timeout'')]\<rparr>)"
  by code_simp

text \<open>
  Claim C8. On a table with a Brand column, whatever the browser does: the run ends
  normally; every task is run, in order; a task whose navigation, script or extraction
  raises adds no row and one warning, with its site and the exception; every other task
  adds one row per accepted href. No exception of a task leaves the task.
\<close>

theorem task_errors_stay_in_task:
  assumes "brand_column_present df_input"
  shows "\<exists>st.
     run_scraper similarity cfg (Inr drv) df_input =
       Inr (Finished (if results st = [] then None else Some (results st)) st) \<and>
     current_operation st = length (tasks_of df_input (get_site_configs (sites_config cfg))) \<and>
     results st =
       concat (map (\<lambda>(n, brand, keyword, site_name, config).
                 case scrape_page similarity cfg drv (Suc n) config brand
                        (cell_str brand @ '' '' @ keyword) of
                   Inl e \<Rightarrow> []
                 | Inr links \<Rightarrow> map (make_row brand keyword site_name) links)
               (enumerate 0 (tasks_of df_input (get_site_configs (sites_config cfg))))) \<and>
     warnings st =
       concat (map (\<lambda>(n, brand, keyword, site_name, config).
                 case scrape_page similarity cfg drv (Suc n) config brand
                        (cell_str brand @ '' '' @ keyword) of
                   Inl e \<Rightarrow> [(site_name, e)]
                 | Inr links \<Rightarrow> [])
               (enumerate 0 (tasks_of df_input (get_site_configs (sites_config cfg)))))"
proof -
  define sites where "sites = get_site_configs (sites_config cfg)"
  define tasks where "tasks = tasks_of df_input sites"
  define total_ops where "total_ops = total_operations_of df_input sites"
  define st0 where
    "st0 = \<lparr>results = [], current_operation = 0, progress_reports = [], warnings = []\<rparr>"
  let ?body = "\<lambda>(brand, keyword, site). run_task similarity cfg drv total_ops brand keyword site"
  have present: "\<forall>row \<in> set (rows df_input). map_of (zip (columns df_input) row) ''Brand'' \<noteq> None"
    using assms by (simp add: brand_column_present_def list_all_iff)
  have flat: "for_each (run_row similarity cfg drv total_ops sites (columns df_input))
      (rows df_input) st0 = for_each ?body tasks st0"
    unfolding tasks_def tasks_of_def by (rule run_rows_flat [OF present])
  have "\<exists>st. for_each ?body tasks st0 = Inr st \<and>
     current_operation st = length tasks \<and>
     results st =
       concat (map (\<lambda>(n, brand, keyword, site_name, config).
                 case scrape_page similarity cfg drv (Suc n) config brand
                        (cell_str brand @ '' '' @ keyword) of
                   Inl e \<Rightarrow> []
                 | Inr links \<Rightarrow> map (make_row brand keyword site_name) links)
               (enumerate 0 tasks)) \<and>
     warnings st =
       concat (map (\<lambda>(n, brand, keyword, site_name, config).
                 case scrape_page similarity cfg drv (Suc n) config brand
                        (cell_str brand @ '' '' @ keyword) of
                   Inl e \<Rightarrow> [(site_name, e)]
                 | Inr links \<Rightarrow> [])
               (enumerate 0 tasks))"
  proof (cases "tasks = []")
    case True
    then show ?thesis by (simp add: st0_def)
  next
    case False
    then have "total_ops \<noteq> 0"
      unfolding tasks_def total_ops_def by (rule tasks_need_total)
    from run_tasks_closed [OF this, of similarity cfg drv tasks st0]
    show ?thesis by (auto simp: st0_def)
  qed
  then obtain st where run: "for_each ?body tasks st0 = Inr st"
    and rest: "current_operation st = length tasks"
      "results st =
       concat (map (\<lambda>(n, brand, keyword, site_name, config).
                 case scrape_page similarity cfg drv (Suc n) config brand
                        (cell_str brand @ '' '' @ keyword) of
                   Inl e \<Rightarrow> []
                 | Inr links \<Rightarrow> map (make_row brand keyword site_name) links)
               (enumerate 0 tasks))"
      "warnings st =
       concat (map (\<lambda>(n, brand, keyword, site_name, config).
                 case scrape_page similarity cfg drv (Suc n) config brand
                        (cell_str brand @ '' '' @ keyword) of
                   Inl e \<Rightarrow> [(site_name, e)]
                 | Inr links \<Rightarrow> [])
               (enumerate 0 tasks))"
    by blast
  have "run_scraper similarity cfg (Inr drv) df_input =
      Inr (Finished (if results st = [] then None else Some (results st)) st)"
    using flat run
    by (simp add: run_scraper_def Let_def sites_def [symmetric] total_ops_def [symmetric]
        st0_def [symmetric])
  with rest show ?thesis unfolding tasks_def sites_def by blast
qed

theorem task_errors_stay_in_task_witness:
  "brand_column_present example_table \<and>
   scrape_page prefix_similarity (example_settings True 12) (example_driver [1] example_page) 1
     (site_named ''Alibaba'') (Some ''Acme'') ''Acme shoes'' = Inl (WebDriverException ''timeout'') \<and>
   run_scraper prefix_similarity (example_settings True 12)
     (Inr (example_driver [1] example_page)) example_table =
   Inr (Finished (Some [example_row])
         \<lparr>results = [example_row], current_operation = 2, progress_reports = [1 / 2, 1],
          warnings = [(''Alibaba'', WebDriverException ''timeout'')]\<rparr>) \<and>
   length (tasks_of example_table (get_site_configs (sites_config (example_settings True 12)))) = 2 \<and>
   concat (map (\<lambda>(n, brand, keyword, site_name, config).
             case scrape_page prefix_similarity (example_settings True 12)
                    (example_driver [1] example_page) (Suc n) config brand
                    (cell_str brand @ '' '' @ keyword) of
               Inl e \<Rightarrow> []
             | Inr links \<Rightarrow> map (make_row brand keyword site_name) links)
           (enumerate 0 (tasks_of example_table
              (get_site_configs (sites_config (example_settings True 12)))))) = [example_row] \<and>
   concat (map (\<lambda>(n, brand, keyword, site_name, config).
             case scrape_page prefix_similarity (example_settings True 12)
                    (example_driver [1] example_page) (Suc n) config brand
                    (cell_str brand @ '' '' @ keyword) of
               Inl e \<Rightarrow> [(site_name, e)]
             | Inr links \<Rightarrow> [])
           (enumerate 0 (tasks_of example_table
              (get_site_configs (sites_config (example_settings True 12)))))) =
     [(''Alibaba'', WebDriverException ''timeout'')]"
proof -
  have present: "brand_column_present example_table" by code_simp
  have fails: "scrape_page prefix_similarity (example_settings True 12)
     (example_driver [1] example_page) 1
     (site_named ''Alibaba'') (Some ''Acme'') ''Acme shoes'' = Inl (WebDriverException ''timeout'')"
    by code_simp
  from task_errors_stay_in_task [OF present, of prefix_similarity "example_settings True 12"
      "example_driver [1] example_page"]
  obtain st where
    run: "run_scraper prefix_similarity (example_settings True 12)
       (Inr (example_driver [1] example_page)) example_table =
       Inr (Finished (if results st = [] then None else Some (results st)) st)"
    and closed:
      "current_operation st =
         length (tasks_of example_table (get_site_configs (sites_config (example_settings True 12))))"
      "results st =
       concat (map (\<lambda>(n, brand, keyword, site_name, config).
             case scrape_page prefix_similarity (example_settings True 12)
                    (example_driver [1] example_page) (Suc n) config brand
                    (cell_str brand @ '' '' @ keyword) of
               Inl e \<Rightarrow> []
             | Inr links \<Rightarrow> map (make_row brand keyword site_name) links)
           (enumerate 0 (tasks_of example_table
              (get_site_configs (sites_config (example_settings True 12))))))"
      "warnings st =
       concat (map (\<lambda>(n, brand, keyword, site_name, config).
             case scrape_page prefix_similarity (example_settings True 12)
                    (example_driver [1] example_page) (Suc n) config brand
                    (cell_str brand @ '' '' @ keyword) of
               Inl e \<Rightarrow> [(site_name, e)]
             | Inr links \<Rightarrow> [])
           (enumerate 0 (tasks_of example_table
              (get_site_configs (sites_config (example_settings True 12))))))"
    by blast
  from run have st: "st =
      \<lparr>results = [example_row], current_operation = 2, progress_reports = [1 / 2, 1],
       warnings = [(''Alibaba'', WebDriverException ''timeout'')]\<rparr>"
    unfolding example_run by simp
  show ?thesis
    using present fails example_run closed [symmetric] unfolding st by simp
qed

text \<open>
  Claim C9. Every row of the table \<open>run_scraper\<close> returns has a \<open>Site\<close> that is one of the
  active site names, and a \<open>Product URL\<close> that contains the \<open>domain_check\<close> of that site's
  profile.
\<close>

theorem rows_are_on_site:
  "run_scraper similarity cfg chrome df_input = Inr (Finished (Some table) st) \<Longrightarrow>
   r \<in> set table \<Longrightarrow>
   \<exists>config. map_of all_configs (Site r) = Some config \<and>
            sites_config cfg (Site r) = Some True \<and>
            str_in (domain_check config) (Product_URL r)"
proof -
  assume run: "run_scraper similarity cfg chrome df_input = Inr (Finished (Some table) st)"
    and r: "r \<in> set table"
  define sites where "sites = get_site_configs (sites_config cfg)"
  define st0 where
    "st0 = \<lparr>results = [], current_operation = 0, progress_reports = [], warnings = []\<rparr>"
  from run obtain drv where
    loop: "for_each (run_row similarity cfg drv (total_operations_of df_input sites) sites
        (columns df_input)) (rows df_input) st0 = Inr st"
    and table: "table = results st"
    by (auto simp: run_scraper_def Let_def sites_def st0_def split: sum.splits if_splits)
  have init: "\<forall>r \<in> set (results st0). row_ok sites r" by (simp add: st0_def)
  have "\<forall>r \<in> set (results st). row_ok sites r"
  proof (rule for_each_invariant [where I = "\<lambda>s. \<forall>r \<in> set (results s). row_ok sites r",
        OF _ init loop])
    fix row s s'
    assume "\<forall>r \<in> set (results s). row_ok sites r"
      "run_row similarity cfg drv (total_operations_of df_input sites) sites (columns df_input) row s = Inr s'"
    then show "\<forall>r \<in> set (results s'). row_ok sites r"
      using run_row_rows_ok by blast
  qed
  with r table obtain config where "(Site r, config) \<in> set sites"
    and dom: "str_in (domain_check config) (Product_URL r)"
    by (auto simp: row_ok_def list_ex_iff)
  then have "map_of all_configs (Site r) = Some config \<and> sites_config cfg (Site r) = Some True"
    unfolding sites_def by (intro active_site)
  with dom show ?thesis by blast
qed

theorem rows_are_on_site_witness:
  "run_scraper prefix_similarity (example_settings True 12)
     (Inr (example_driver [1] example_page)) example_table =
   Inr (Finished (Some [example_row])
         \<lparr>results = [example_row], current_operation = 2, progress_reports = [1 / 2, 1],
          warnings = [(''Alibaba'', WebDriverException ''timeout'')]\<rparr>) \<and>
   example_row \<in> set [example_row] \<and>
   (\<exists>config. map_of all_configs (Site example_row) = Some config \<and>
             sites_config (example_settings True 12) (Site example_row) = Some True \<and>
             str_in (domain_check config) (Product_URL example_row))"
proof -
  have member: "example_row \<in> set [example_row]" by simp
  show ?thesis
    using example_run member rows_are_on_site [OF example_run member] by blast
qed

lemma length_product: "length (concat (map (\<lambda>x. map (f x) ys) xs)) = length xs * length ys"
  by (induction xs) simp_all

lemma length_row_tasks:
  "length (row_tasks sites cols row) = length (keywords_of cols row) * length sites"
  unfolding row_tasks_def by (rule length_product)

lemma length_tasks_complete:
  assumes "\<forall>row \<in> set (rows df). length (keywords_of (columns df) row) = length (keyword_columns df)"
  shows "length (tasks_of df sites) = total_operations_of df sites"
proof -
  have "\<And>rws. \<forall>row \<in> set rws. length (keywords_of (columns df) row) = length (keyword_columns df) \<Longrightarrow>
      length (concat (map (row_tasks sites (columns df)) rws)) =
      length rws * length (keyword_columns df) * length sites"
  proof -
    fix rws
    show "\<forall>row \<in> set rws. length (keywords_of (columns df) row) = length (keyword_columns df) \<Longrightarrow>
      length (concat (map (row_tasks sites (columns df)) rws)) =
      length rws * length (keyword_columns df) * length sites"
      by (induction rws) (simp_all add: length_row_tasks algebra_simps)
  qed
  from this [OF assms] show ?thesis by (simp add: tasks_of_def total_operations_of_def)
qed

lemma run_scraper_progress:
  assumes "brand_column_present df_input"
  shows "\<exists>outcome st.
     run_scraper similarity cfg (Inr drv) df_input = Inr (Finished outcome st) \<and>
     progress_reports st =
       map (\<lambda>n. of_nat (Suc n) /
                 of_nat (total_operations_of df_input (get_site_configs (sites_config cfg))))
         [0 ..< length (tasks_of df_input (get_site_configs (sites_config cfg)))]"
proof -
  define sites where "sites = get_site_configs (sites_config cfg)"
  define tasks where "tasks = tasks_of df_input sites"
  define total_ops where "total_ops = total_operations_of df_input sites"
  define st0 where
    "st0 = \<lparr>results = [], current_operation = 0, progress_reports = [], warnings = []\<rparr>"
  let ?body = "\<lambda>(brand, keyword, site). run_task similarity cfg drv total_ops brand keyword site"
  have present: "\<forall>row \<in> set (rows df_input). map_of (zip (columns df_input) row) ''Brand'' \<noteq> None"
    using assms by (simp add: brand_column_present_def list_all_iff)
  have flat: "for_each (run_row similarity cfg drv total_ops sites (columns df_input))
      (rows df_input) st0 = for_each ?body tasks st0"
    unfolding tasks_def tasks_of_def by (rule run_rows_flat [OF present])
  have "\<exists>st. for_each ?body tasks st0 = Inr st \<and>
     progress_reports st = map (\<lambda>n. of_nat (Suc n) / of_nat total_ops) [0 ..< length tasks]"
  proof (cases "tasks = []")
    case True
    then show ?thesis by (simp add: st0_def)
  next
    case False
    then have "total_ops \<noteq> 0"
      unfolding tasks_def total_ops_def by (rule tasks_need_total)
    from run_tasks_closed [OF this, of similarity cfg drv tasks st0]
    show ?thesis by (auto simp: st0_def)
  qed
  then obtain st where run: "for_each ?body tasks st0 = Inr st"
    and prog: "progress_reports st =
      map (\<lambda>n. of_nat (Suc n) / of_nat total_ops) [0 ..< length tasks]"
    by blast
  have "run_scraper similarity cfg (Inr drv) df_input =
      Inr (Finished (if results st = [] then None else Some (results st)) st)"
    using flat run
    by (simp add: run_scraper_def Let_def sites_def [symmetric] total_ops_def [symmetric]
        st0_def [symmetric])
  with prog show ?thesis unfolding tasks_def total_ops_def sites_def by blast
qed

text \<open>
  On a table where no keyword cell is missing, the denominator is the number of tasks and
  the last fraction reported is 1.
\<close>

lemma complete_table_progress:
  assumes present: "brand_column_present df_input"
    and complete: "\<forall>row \<in> set (rows df_input).
        length (keywords_of (columns df_input) row) = length (keyword_columns df_input)"
    and some: "tasks_of df_input (get_site_configs (sites_config cfg)) \<noteq> []"
  shows "\<exists>outcome st.
     run_scraper similarity cfg (Inr drv) df_input = Inr (Finished outcome st) \<and>
     length (progress_reports st) =
       total_operations_of df_input (get_site_configs (sites_config cfg)) \<and>
     last (progress_reports st) = 1"
proof -
  let ?sites = "get_site_configs (sites_config cfg)"
  let ?total = "total_operations_of df_input ?sites"
  have len: "length (tasks_of df_input ?sites) = ?total"
    using complete by (rule length_tasks_complete)
  from some have pos: "?total \<noteq> 0" by (rule tasks_need_total)
  from run_scraper_progress [OF present, of similarity cfg drv]
  obtain outcome st where run: "run_scraper similarity cfg (Inr drv) df_input = Inr (Finished outcome st)"
    and prog: "progress_reports st = map (\<lambda>n. of_nat (Suc n) / of_nat ?total) [0 ..< ?total]"
    unfolding len by blast
  have "last (progress_reports st) = 1"
    using pos unfolding prog by (simp add: last_map)
  moreover have "length (progress_reports st) = ?total" unfolding prog by simp
  ultimately show ?thesis using run by blast
qed

text \<open>
  Claim C2 does not hold of the code. The denominator is the number of rows times the
  number of keyword columns times the number of active sites, and a missing keyword cell
  is counted in it though no task is run for it. On a table with one row, one keyword and
  one missing keyword cell, with two active sites, the denominator is 4, the tasks are 2,
  and the last fraction reported is 1/2.
\<close>

theorem progress_stops_short:
  "total_operations_of gap_table (get_site_configs (sites_config (example_settings True 12))) = 4 \<and>
   length (tasks_of gap_table (get_site_configs (sites_config (example_settings True 12)))) = 2 \<and>
   run_scraper prefix_similarity (example_settings True 12)
     (Inr (example_driver [] (static_page []))) gap_table =
   Inr (Finished None
         \<lparr>results = [], current_operation = 2, progress_reports = [1 / 4, 1 / 2],
          warnings = []\<rparr>)"
  by code_simp

end
